theory Spec2Isabelle
  imports
    Main
    "HOL-Library.Word"
    "HOL-Library.AList"
    "HOL-Library.Multiset"
    "HOL-Library.Product_Lexorder"
    "HOL-Library.List_Lexorder"
begin

unbundle bit_operations_syntax

section \<open>Values of the program\<close>

subsection \<open>Text\<close>

text \<open>
  A Python \<open>str\<close> is a sequence of Unicode code points; \<open>len\<close> and slicing count code
  points. The status texts of \<open>test_database\<close> contain code points above U+00FF, so text
  is a list of code points, and \<open>py\<close> embeds an ASCII literal. A \<open>str\<close> field of a
  request is any such text: a JSON body can carry any code point, a lone surrogate too.
\<close>

type_synonym pystr = "nat list"
type_synonym byte = "8 word"
type_synonym w32 = "32 word"

definition py :: "string \<Rightarrow> pystr" where
  "py s = map of_char s"

subsection \<open>Errors\<close>

text \<open>
  A handler returns a value or raises: an \<open>HTTPException\<close> with its status code and
  detail, or another exception, which nothing in the program catches.
\<close>

datatype exn = ValidationError | AttributeError | DatabaseNotAvailable | UnicodeEncodeError

datatype error = HTTPException nat pystr | Unhandled exn

subsection \<open>UTF-8\<close>

text \<open>
  \<open>pw.encode("utf-8")\<close>: one to four bytes for each code point (a code point of a
  \<open>str\<close> is at most U+10FFFF). A surrogate, U+D800 to U+DFFF, has no encoding: the call
  raises \<open>UnicodeEncodeError\<close>.
\<close>

definition surrogate :: "nat \<Rightarrow> bool" where
  "surrogate c = (0xD800 \<le> c \<and> c \<le> 0xDFFF)"

fun utf8_char :: "nat \<Rightarrow> error + byte list" where
  "utf8_char c =
     (if c < 0x80 then Inr [of_nat c]
      else if c < 0x800 then Inr [of_nat (0xC0 + c div 64), of_nat (0x80 + c mod 64)]
      else if surrogate c then Inl (Unhandled UnicodeEncodeError)
      else if c < 0x10000 then
        Inr [of_nat (0xE0 + c div 4096), of_nat (0x80 + (c div 64) mod 64),
             of_nat (0x80 + c mod 64)]
      else
        Inr [of_nat (0xF0 + c div 262144), of_nat (0x80 + (c div 4096) mod 64),
             of_nat (0x80 + (c div 64) mod 64), of_nat (0x80 + c mod 64)])"

fun encode_utf8 :: "pystr \<Rightarrow> error + byte list" where
  "encode_utf8 [] = Inr []"
| "encode_utf8 (c # s) =
     (case utf8_char c of
        Inl e \<Rightarrow> Inl e
      | Inr b \<Rightarrow> (case encode_utf8 s of Inl e \<Rightarrow> Inl e | Inr bs \<Rightarrow> Inr (b @ bs)))"

subsection \<open>SHA-256 (\<open>hashlib.sha256\<close>, FIPS 180-4)\<close>

definition rotr :: "nat \<Rightarrow> w32 \<Rightarrow> w32" where
  "rotr n x = (drop_bit n x) OR (push_bit (32 - n) x)"

text \<open>
  The round constants and the initial hash value of the standard (the leading 32 bits of
  the fractional parts of the cube roots of the first 64 primes, and of the square roots
  of the first 8), as decimal numerals.
\<close>

definition sha_K :: "w32 list" where
  "sha_K =
   [1116352408, 1899447441, 3049323471, 3921009573, 961987163, 1508970993,
    2453635748, 2870763221, 3624381080, 310598401, 607225278, 1426881987,
    1925078388, 2162078206, 2614888103, 3248222580, 3835390401, 4022224774,
    264347078, 604807628, 770255983, 1249150122, 1555081692, 1996064986,
    2554220882, 2821834349, 2952996808, 3210313671, 3336571891, 3584528711,
    113926993, 338241895, 666307205, 773529912, 1294757372, 1396182291,
    1695183700, 1986661051, 2177026350, 2456956037, 2730485921, 2820302411,
    3259730800, 3345764771, 3516065817, 3600352804, 4094571909, 275423344,
    430227734, 506948616, 659060556, 883997877, 958139571, 1322822218,
    1537002063, 1747873779, 1955562222, 2024104815, 2227730452, 2361852424,
    2428436474, 2756734187, 3204031479, 3329325298]"

definition sha_H0 :: "w32 list" where
  "sha_H0 = [1779033703, 3144134277, 1013904242, 2773480762,
             1359893119, 2600822924, 528734635, 1541459225]"

definition sha_pad :: "byte list \<Rightarrow> byte list" where
  "sha_pad m =
     (let n = length m;
          bits = (of_nat (8 * n) :: 64 word)
      in m @ [0x80] @ replicate ((119 - n mod 64) mod 64) 0
           @ map (\<lambda>i. ucast (drop_bit (8 * (7 - i)) bits)) [0..<8])"

fun be32 :: "byte list \<Rightarrow> w32" where
  "be32 bs = foldl (\<lambda>acc b. push_bit 8 acc OR ucast b) 0 bs"

fun chunks :: "nat \<Rightarrow> nat \<Rightarrow> 'a list \<Rightarrow> 'a list list" where
  "chunks 0 k xs = []"
| "chunks (Suc n) k xs = take k xs # chunks n k (drop k xs)"

definition block_words :: "byte list \<Rightarrow> w32 list" where
  "block_words b = map be32 (chunks 16 4 b)"

fun schedule :: "nat \<Rightarrow> w32 list \<Rightarrow> w32 list" where
  "schedule 0 w = w"
| "schedule (Suc k) w =
     (let i = length w;
          x = w ! (i - 15); y = w ! (i - 2);
          s0 = rotr 7 x XOR rotr 18 x XOR drop_bit 3 x;
          s1 = rotr 17 y XOR rotr 19 y XOR drop_bit 10 y
      in schedule k (w @ [w ! (i - 16) + s0 + w ! (i - 7) + s1]))"

fun sha_round :: "w32 list \<Rightarrow> w32 \<times> w32 \<Rightarrow> w32 list" where
  "sha_round [a, b, c, d, e, f, g, h] (k, w) =
     (let S1 = rotr 6 e XOR rotr 11 e XOR rotr 25 e;
          ch = (e AND f) XOR (NOT e AND g);
          t1 = h + S1 + ch + k + w;
          S0 = rotr 2 a XOR rotr 13 a XOR rotr 22 a;
          mj = (a AND b) XOR (a AND c) XOR (b AND c);
          t2 = S0 + mj
      in [t1 + t2, a, b, c, d + t1, e, f, g])"
| "sha_round st _ = st"

definition compress :: "w32 list \<Rightarrow> byte list \<Rightarrow> w32 list" where
  "compress hs b =
     map2 (+) hs (foldl sha_round hs (zip sha_K (schedule 48 (block_words b))))"

definition sha256 :: "byte list \<Rightarrow> byte list" where
  "sha256 m =
     (let p = sha_pad m
      in concat (map (\<lambda>w. map (\<lambda>i. ucast (drop_bit (8 * (3 - i)) w)) [0..<4])
                     (foldl compress sha_H0 (chunks (length p div 64) 64 p))))"

definition hex_digit :: "nat \<Rightarrow> nat" where
  "hex_digit d = (if d < 10 then 48 + d else 87 + d)"

definition hexdigest :: "byte list \<Rightarrow> pystr" where
  "hexdigest bs = concat (map (\<lambda>b. [hex_digit (unat b div 16), hex_digit (unat b mod 16)]) bs)"

text \<open>
  \<open>_hash_password\<close> of the source (an identifier cannot start with an underscore here).
  It raises when the password cannot be encoded.
\<close>

definition hash_password :: "pystr \<Rightarrow> error + pystr" where
  "hash_password pw =
     (case encode_utf8 pw of Inl e \<Rightarrow> Inl e | Inr bs \<Rightarrow> Inr (hexdigest (sha256 bs)))"

subsection \<open>Stored values and documents\<close>

text \<open>
  The values this application stores in a document: \<open>None\<close>, \<open>bool\<close>, \<open>str\<close>, a
  \<open>datetime\<close> (a BSON date: milliseconds since 1970-01-01T00:00:00 UTC, within the
  years 1 to 9999 of a Python \<open>datetime\<close>) and an \<open>ObjectId\<close> (twelve bytes, as a
  number). A document is a Python \<open>dict\<close>: an association list, read by \<open>map_of\<close>
  and written by \<open>AList.update\<close>.
\<close>

datatype bson = VNull | VBool bool | VStr pystr | VDate int | VObjectId nat

type_synonym document = "(pystr \<times> bson) list"

text \<open>\<open>d.get(k, default)\<close>; \<open>d.get(k)\<close> is \<open>doc_get d k VNull\<close>.\<close>

definition doc_get :: "document \<Rightarrow> pystr \<Rightarrow> bson \<Rightarrow> bson" where
  "doc_get d k dflt = (case map_of d k of None \<Rightarrow> dflt | Some v \<Rightarrow> v)"

text \<open>Truth value of a Python object (\<open>bool(x)\<close>, \<open>if x\<close>).\<close>

fun truthy :: "bson \<Rightarrow> bool" where
  "truthy VNull = False"
| "truthy (VBool b) = b"
| "truthy (VStr s) = (s \<noteq> [])"
| "truthy (VDate t) = True"
| "truthy (VObjectId n) = True"

definition digits2 :: "int \<Rightarrow> pystr" where
  "digits2 n = [48 + nat (n div 10 mod 10), 48 + nat (n mod 10)]"

definition digits4 :: "int \<Rightarrow> pystr" where
  "digits4 n = digits2 (n div 100 mod 100) @ digits2 (n mod 100)"

definition digits6 :: "int \<Rightarrow> pystr" where
  "digits6 n = digits2 (n div 10000 mod 100) @ digits4 (n mod 10000)"

text \<open>The proleptic Gregorian date (year, month, day) of a day number counted from 1970-01-01.\<close>

definition civil_from_days :: "int \<Rightarrow> int \<times> int \<times> int" where
  "civil_from_days z0 =
     (let z = z0 + 719468;
          era = z div 146097;
          doe = z mod 146097;
          yoe = (doe - doe div 1460 + doe div 36524 - doe div 146096) div 365;
          doy = doe - (365 * yoe + yoe div 4 - yoe div 100);
          mp = (5 * doy + 2) div 153;
          d = doy - (153 * mp + 2) div 5 + 1;
          m = (if mp < 10 then mp + 3 else mp - 9);
          y = yoe + era * 400 + (if m \<le> 2 then 1 else 0)
      in (y, m, d))"

text \<open>\<open>datetime.isoformat(sep)\<close>: the fraction is printed only when it is not zero.\<close>

definition isoformat :: "nat \<Rightarrow> int \<Rightarrow> pystr" where
  "isoformat sep t =
     (let (y, m, d) = civil_from_days (t div 86400000);
          r = t mod 86400000;
          us = (r mod 1000) * 1000
      in digits4 y @ py ''-'' @ digits2 m @ py ''-'' @ digits2 d @ [sep]
         @ digits2 (r div 3600000) @ py '':'' @ digits2 (r div 60000 mod 60) @ py '':''
         @ digits2 (r div 1000 mod 60)
         @ (if us \<noteq> 0 then py ''.'' @ digits6 us else []))"

text \<open>The last \<open>k\<close> hexadecimal digits of a number.\<close>

fun hex_of :: "nat \<Rightarrow> nat \<Rightarrow> pystr" where
  "hex_of 0 n = []"
| "hex_of (Suc k) n = hex_of k (n div 16) @ [hex_digit (n mod 16)]"

text \<open>\<open>str(x)\<close>; an \<open>ObjectId\<close> prints as 24 hexadecimal digits.\<close>

fun py_str :: "bson \<Rightarrow> pystr" where
  "py_str VNull = py ''None''"
| "py_str (VBool b) = (if b then py ''True'' else py ''False'')"
| "py_str (VStr s) = s"
| "py_str (VDate t) = isoformat 32 t"
| "py_str (VObjectId n) = hex_of 24 n"

section \<open>The datastore\<close>

text \<open>
  The handle \<open>db\<close> of the persistence gateway is a database or \<open>None\<close>. A database has
  a name and named collections of documents (a collection never written is empty);
  \<open>next_id\<close> is the source of generated identifiers.
\<close>

record mongo_db =
  name :: pystr
  colls :: "pystr \<Rightarrow> document list"
  next_id :: nat

text \<open>
  A query filter is a document. A filter entry \<open>{k: v}\<close> matches a document whose field
  \<open>k\<close> equals \<open>v\<close>; \<open>{k: null}\<close> also matches a document without the field.
\<close>

definition matches :: "document \<Rightarrow> document \<Rightarrow> bool" where
  "matches flt d =
     list_all (\<lambda>(k, v). case map_of d k of None \<Rightarrow> v = VNull | Some w \<Rightarrow> w = v) flt"

definition find_one :: "document list \<Rightarrow> document \<Rightarrow> document option" where
  "find_one c flt = List.find (matches flt) c"

definition find_docs :: "document list \<Rightarrow> document \<Rightarrow> document list" where
  "find_docs c flt = filter (matches flt) c"

text \<open>
  The order of stored values: by type first (null and missing, then strings, then
  identifiers, booleans, dates), then by value.
\<close>

fun bson_key :: "bson \<Rightarrow> nat \<times> int \<times> pystr" where
  "bson_key VNull = (2, 0, [])"
| "bson_key (VStr s) = (4, 0, s)"
| "bson_key (VObjectId n) = (8, int n, [])"
| "bson_key (VBool b) = (9, if b then 1 else 0, [])"
| "bson_key (VDate t) = (10, t, [])"

fun insort_desc :: "('a \<Rightarrow> 'k::linorder) \<Rightarrow> 'a \<Rightarrow> 'a list \<Rightarrow> 'a list" where
  "insort_desc k x [] = [x]"
| "insort_desc k x (y # ys) =
     (if k y \<le> k x then x # y # ys else y # insort_desc k x ys)"

text \<open>\<open>cursor.sort(field, -1)\<close>: descending by the field, a missing field counting as null.\<close>

definition sort_desc :: "pystr \<Rightarrow> document list \<Rightarrow> document list" where
  "sort_desc field ds = foldr (insort_desc (\<lambda>d. bson_key (doc_get d field VNull))) ds []"

text \<open>\<open>update_many(filter, {"$set": upd})\<close>.\<close>

definition update_many :: "document list \<Rightarrow> document \<Rightarrow> document \<Rightarrow> document list" where
  "update_many c flt upd =
     map (\<lambda>d. if matches flt d then foldl (\<lambda>d' (k, v). AList.update k v d') d upd else d) c"

text \<open>
  Modelled from the spec: \<open>create_document\<close> of the persistence gateway (module
  \<open>database\<close>), which the handlers import. It inserts the document into the named
  collection, the datastore assigning \<open>created_at\<close> at insert time (\<open>now\<close> is the clock
  at the insert), and returns the generated identifier as text; it fails with a datastore
  error when the connection is unavailable.
\<close>

definition create_document ::
  "mongo_db option \<Rightarrow> int \<Rightarrow> pystr \<Rightarrow> document \<Rightarrow> (error + pystr) \<times> mongo_db option" where
  "create_document db now collection_name data =
     (case db of
        None \<Rightarrow> (Inl (Unhandled DatabaseNotAvailable), None)
      | Some s \<Rightarrow>
          (let oid = VObjectId (next_id s);
               stored = AList.update (py ''_id'') oid
                          (AList.update (py ''created_at'') (VDate now) data)
           in (Inr (py_str oid),
               Some (s\<lparr>colls := (colls s)(collection_name := colls s collection_name @ [stored]),
                       next_id := next_id s + 1\<rparr>))))"

section \<open>Health\<close>

record diagnostic =
  backend :: pystr
  database :: pystr
  database_url :: "pystr option"
  database_name :: "pystr option"
  connection_status :: pystr
  collections :: "pystr list"

text \<open>
  \<open>test_database\<close>: \<open>enum\<close> is what \<open>db.list_collection_names()\<close> does when it is called:
  it returns the names, or raises an exception whose text is \<open>Inl\<close>; \<open>env_url\<close> and
  \<open>env_name\<close> are \<open>os.getenv\<close> of \<open>DATABASE_URL\<close> and \<open>DATABASE_NAME\<close>. A database
  handle always has a \<open>name\<close>, and the statements under the outer \<open>try\<close>, apart from
  the enumeration with its own handler, cannot raise.
\<close>

definition test_database ::
  "mongo_db option \<Rightarrow> pystr + pystr list \<Rightarrow> pystr option \<Rightarrow> pystr option \<Rightarrow> diagnostic" where
  "test_database db enum env_url env_name =
     (let response = \<lparr>backend = 0x2705 # py '' Running'',
                       database = 0x274C # py '' Not Available'',
                       database_url = None,
                       database_name = None,
                       connection_status = py ''Not Connected'',
                       collections = []\<rparr>;
          response =
            (case db of
               Some s \<Rightarrow>
                 (let response = response\<lparr>database := 0x2705 # py '' Available'',
                                           database_url := Some (0x2705 # py '' Configured''),
                                           database_name := Some (name s),
                                           connection_status := py ''Connected''\<rparr>
                  in case enum of
                       Inr cs \<Rightarrow> response\<lparr>collections := take 10 cs,
                                           database := 0x2705 # py '' Connected & Working''\<rparr>
                     | Inl e \<Rightarrow> response\<lparr>database :=
                                   [0x26A0, 0xFE0F] @ py ''  Connected but Error: '' @ take 50 e\<rparr>)
             | None \<Rightarrow> response\<lparr>database :=
                          [0x26A0, 0xFE0F] @ py ''  Available but not initialized''\<rparr>);
          response = response\<lparr>database_url :=
                       Some (if env_url \<noteq> None \<and> env_url \<noteq> Some []
                             then 0x2705 # py '' Set'' else 0x274C # py '' Not Set'')\<rparr>;
          response = response\<lparr>database_name :=
                       Some (if env_name \<noteq> None \<and> env_name \<noteq> Some []
                             then 0x2705 # py '' Set'' else 0x274C # py '' Not Set'')\<rparr>
      in response)"

section \<open>Auth\<close>

text \<open>
  An email address as a client writes it, \<open>local@domain\<close>. A field of type \<open>EmailStr\<close>
  holds the validated address: the local part as written and the domain in lower case
  (ASCII letters; other characters of a domain are not modelled). The \<open>email\<close> field of
  every request record below is such a validated text.
\<close>

record address =
  local_part :: pystr
  domain :: pystr

definition written :: "address \<Rightarrow> pystr" where
  "written a = local_part a @ py ''@'' @ domain a"

definition lower_char :: "nat \<Rightarrow> nat" where
  "lower_char c = (if 65 \<le> c \<and> c \<le> 90 then c + 32 else c)"

definition EmailStr :: "address \<Rightarrow> pystr" where
  "EmailStr a = local_part a @ py ''@'' @ map lower_char (domain a)"

record RegisterRequest =
  reg_name :: pystr
  reg_email :: pystr
  reg_password :: pystr

text \<open>The request body \<open>{name, email, password}\<close> parsed into a \<open>RegisterRequest\<close>.\<close>

definition RegisterRequest_init :: "pystr \<Rightarrow> address \<Rightarrow> pystr \<Rightarrow> RegisterRequest" where
  "RegisterRequest_init n a p = \<lparr>reg_name = n, reg_email = EmailStr a, reg_password = p\<rparr>"

record LoginRequest =
  login_email :: pystr
  login_password :: pystr

record AuthResponse =
  auth_name :: pystr
  auth_email :: pystr
  avatar_url :: "pystr option"

text \<open>
  The constructor \<open>AuthResponse(name=, email=, avatar_url=)\<close> validates its arguments:
  \<open>name\<close> and \<open>email\<close> are strings, \<open>avatar_url\<close> is a string or \<open>None\<close>. (The address
  it is given is always the address of the request, which request validation has accepted.)
\<close>

fun AuthResponse_init :: "bson \<Rightarrow> bson \<Rightarrow> bson \<Rightarrow> error + AuthResponse" where
  "AuthResponse_init (VStr n) (VStr e) VNull =
     Inr \<lparr>auth_name = n, auth_email = e, avatar_url = None\<rparr>"
| "AuthResponse_init (VStr n) (VStr e) (VStr a) =
     Inr \<lparr>auth_name = n, auth_email = e, avatar_url = Some a\<rparr>"
| "AuthResponse_init _ _ _ = Inl (Unhandled ValidationError)"

text \<open>Truth value of what \<open>find_one\<close> returns: \<open>None\<close> and the empty dict are false.\<close>

definition found :: "document option \<Rightarrow> bool" where
  "found r = (r \<noteq> None \<and> r \<noteq> Some [])"

definition register ::
  "mongo_db option \<Rightarrow> int \<Rightarrow> RegisterRequest \<Rightarrow> (error + AuthResponse) \<times> mongo_db option" where
  "register db now data =
     (case db of
        None \<Rightarrow> (Inl (HTTPException 500 (py ''Database not available'')), db)
      | Some s \<Rightarrow>
          (let existing = find_one (colls s (py ''authuser'')) [(py ''email'', VStr (reg_email data))]
           in if found existing
              then (Inl (HTTPException 400 (py ''Email already registered'')), db)
              else
                (case hash_password (reg_password data) of
                   Inl e \<Rightarrow> (Inl e, db)
                 | Inr h \<Rightarrow>
                     (let doc = [(py ''name'', VStr (reg_name data)),
                                 (py ''email'', VStr (reg_email data)),
                                 (py ''password_hash'', VStr h),
                                 (py ''avatar_url'', VNull)]
                      in case create_document db now (py ''authuser'') doc of
                           (Inl e, db') \<Rightarrow> (Inl e, db')
                         | (Inr _, db') \<Rightarrow>
                             (AuthResponse_init (VStr (reg_name data)) (VStr (reg_email data))
                                VNull,
                              db')))))"

definition login ::
  "mongo_db option \<Rightarrow> LoginRequest \<Rightarrow> (error + AuthResponse) \<times> mongo_db option" where
  "login db data =
     (case db of
        None \<Rightarrow> (Inl (HTTPException 500 (py ''Database not available'')), db)
      | Some s \<Rightarrow>
          (let user = find_one (colls s (py ''authuser'')) [(py ''email'', VStr (login_email data))]
           in if \<not> found user
              then (Inl (HTTPException 401 (py ''Invalid credentials'')), db)
              else
                (case hash_password (login_password data) of
                   Inl e \<Rightarrow> (Inl e, db)
                 | Inr h \<Rightarrow>
                     if doc_get (the user) (py ''password_hash'') VNull \<noteq> VStr h
                     then (Inl (HTTPException 401 (py ''Invalid credentials'')), db)
                     else (AuthResponse_init (doc_get (the user) (py ''name'') VNull)
                                             (doc_get (the user) (py ''email'') VNull)
                                             (doc_get (the user) (py ''avatar_url'') VNull),
                           db))))"

section \<open>Notifications\<close>

record CreateNotificationRequest =
  cn_email :: pystr
  cn_title :: pystr
  cn_body :: pystr

record NotificationItem =
  id' :: pystr
  title :: pystr
  body :: pystr
  read :: bool
  created_at :: "pystr option"

definition create_notification ::
  "mongo_db option \<Rightarrow> int \<Rightarrow> CreateNotificationRequest
     \<Rightarrow> (error + (pystr \<times> pystr) list) \<times> mongo_db option" where
  "create_notification db now data =
     (case db of
        None \<Rightarrow> (Inl (HTTPException 500 (py ''Database not available'')), db)
      | Some s \<Rightarrow>
          (let user = find_one (colls s (py ''authuser'')) [(py ''email'', VStr (cn_email data))]
           in if \<not> found user
              then (Inl (HTTPException 404 (py ''User not found'')), db)
              else
                (let doc = [(py ''user_email'', VStr (cn_email data)),
                            (py ''title'', VStr (cn_title data)),
                            (py ''body'', VStr (cn_body data)),
                            (py ''read'', VBool False)]
                 in case create_document db now (py ''notification'') doc of
                      (Inl e, db') \<Rightarrow> (Inl e, db')
                    | (Inr nid, db') \<Rightarrow>
                        (Inr [(py ''id'', nid), (py ''status'', py ''created'')], db'))))"

text \<open>
  The \<open>created_at\<close> argument of the item: \<open>d.get("created_at").isoformat() if
  d.get("created_at") else None\<close>. A true value that is not a datetime has no
  \<open>isoformat\<close>.
\<close>

definition created_at_arg :: "document \<Rightarrow> error + pystr option" where
  "created_at_arg d =
     (let v = doc_get d (py ''created_at'') VNull
      in if truthy v
         then (case v of VDate t \<Rightarrow> Inr (Some (isoformat 84 t))
                       | _ \<Rightarrow> Inl (Unhandled AttributeError))
         else Inr None)"

text \<open>
  The constructor \<open>NotificationItem(id=, title=, body=, read=, created_at=)\<close>: \<open>title\<close>
  and \<open>body\<close> are validated as strings; the other arguments already have their type.
\<close>

fun NotificationItem_init ::
  "pystr \<Rightarrow> bson \<Rightarrow> bson \<Rightarrow> bool \<Rightarrow> pystr option \<Rightarrow> error + NotificationItem" where
  "NotificationItem_init i (VStr t) (VStr b) r c =
     Inr \<lparr>id' = i, title = t, body = b, read = r, created_at = c\<rparr>"
| "NotificationItem_init _ _ _ _ _ = Inl (Unhandled ValidationError)"

definition notification_item :: "document \<Rightarrow> error + NotificationItem" where
  "notification_item d =
     (case created_at_arg d of
        Inl e \<Rightarrow> Inl e
      | Inr c \<Rightarrow>
          NotificationItem_init (py_str (doc_get d (py ''_id'') VNull))
            (doc_get d (py ''title'') (VStr []))
            (doc_get d (py ''body'') (VStr []))
            (truthy (doc_get d (py ''read'') (VBool False)))
            c)"

text \<open>The loop \<open>for d in raw: items.append(...)\<close>; an exception leaves the loop.\<close>

fun items_loop :: "document list \<Rightarrow> NotificationItem list \<Rightarrow> error + NotificationItem list" where
  "items_loop [] items = Inr items"
| "items_loop (d # raw) items =
     (case notification_item d of
        Inl e \<Rightarrow> Inl e
      | Inr it \<Rightarrow> items_loop raw (items @ [it]))"

definition list_notifications ::
  "mongo_db option \<Rightarrow> pystr \<Rightarrow> (error + NotificationItem list) \<times> mongo_db option" where
  "list_notifications db email =
     (case db of
        None \<Rightarrow> (Inl (HTTPException 500 (py ''Database not available'')), db)
      | Some s \<Rightarrow>
          (let raw = sort_desc (py ''created_at'')
                       (find_docs (colls s (py ''notification'')) [(py ''user_email'', VStr email)])
           in (items_loop raw [], db)))"

definition mark_all_read ::
  "mongo_db option \<Rightarrow> pystr \<Rightarrow> (error + (pystr \<times> pystr) list) \<times> mongo_db option" where
  "mark_all_read db email =
     (case db of
        None \<Rightarrow> (Inl (HTTPException 500 (py ''Database not available'')), db)
      | Some s \<Rightarrow>
          (Inr [(py ''status'', py ''ok'')],
           Some (s\<lparr>colls := (colls s)(py ''notification'' :=
                    update_many (colls s (py ''notification''))
                      [(py ''user_email'', VStr email), (py ''read'', VBool False)]
                      [(py ''read'', VBool True)])\<rparr>)))"

section \<open>Observations\<close>

text \<open>
  The HTTP status of an outcome: 200 for a returned value, the code of an
  \<open>HTTPException\<close>, and 500 for any other exception, which the framework turns into
  its generic server error.
\<close>

definition status_code :: "error + 'a \<Rightarrow> nat" where
  "status_code r =
     (case r of Inr _ \<Rightarrow> 200 | Inl (HTTPException c _) \<Rightarrow> c | Inl (Unhandled _) \<Rightarrow> 500)"

text \<open>Two texts differ in character case: they are not equal, but equal in lower case.\<close>

definition differ_in_case :: "pystr \<Rightarrow> pystr \<Rightarrow> bool" where
  "differ_in_case a b = (a \<noteq> b \<and> map lower_char a = map lower_char b)"

text \<open>The number of User documents with an email, and the Notification documents of an email.\<close>

definition user_count :: "mongo_db \<Rightarrow> pystr \<Rightarrow> nat" where
  "user_count s e = length (find_docs (colls s (py ''authuser'')) [(py ''email'', VStr e)])"

definition notifications_of :: "mongo_db \<Rightarrow> pystr \<Rightarrow> document list" where
  "notifications_of s e = find_docs (colls s (py ''notification'')) [(py ''user_email'', VStr e)]"

text \<open>
  The data model: a field that is present has the type of its attribute. A User has a
  text \<open>name\<close> and a text or null \<open>avatar_url\<close>; a Notification has text \<open>title\<close>
  and \<open>body\<close>, a timestamp \<open>created_at\<close>, and a boolean \<open>read\<close>, which every
  Notification carries.
\<close>

fun is_str :: "bson \<Rightarrow> bool" where
  "is_str (VStr _) = True"
| "is_str _ = False"

fun is_bool :: "bson \<Rightarrow> bool" where
  "is_bool (VBool _) = True"
| "is_bool _ = False"

fun is_date :: "bson \<Rightarrow> bool" where
  "is_date (VDate _) = True"
| "is_date _ = False"

definition field_ok :: "document \<Rightarrow> pystr \<Rightarrow> (bson \<Rightarrow> bool) \<Rightarrow> bool" where
  "field_ok d k P = (case map_of d k of None \<Rightarrow> True | Some v \<Rightarrow> P v)"

definition well_typed :: "document \<Rightarrow> bool" where
  "well_typed d =
     (field_ok d (py ''title'') is_str \<and> field_ok d (py ''body'') is_str
      \<and> field_ok d (py ''read'') is_bool \<and> field_ok d (py ''created_at'') is_date)"

definition user_ok :: "document \<Rightarrow> bool" where
  "user_ok d =
     (is_str (doc_get d (py ''name'') VNull)
      \<and> (is_str (doc_get d (py ''avatar_url'') VNull) \<or> doc_get d (py ''avatar_url'') VNull = VNull))"

definition has_read_flag :: "document \<Rightarrow> bool" where
  "has_read_flag d = is_bool (doc_get d (py ''read'') VNull)"

text \<open>The name, email and \<open>avatar_url\<close> of a stored User record.\<close>

definition auth_of :: "document \<Rightarrow> AuthResponse" where
  "auth_of u =
     \<lparr>auth_name = (case doc_get u (py ''name'') VNull of VStr n \<Rightarrow> n | _ \<Rightarrow> []),
      auth_email = (case doc_get u (py ''email'') VNull of VStr e \<Rightarrow> e | _ \<Rightarrow> []),
      avatar_url = (case doc_get u (py ''avatar_url'') VNull of VStr a \<Rightarrow> Some a | _ \<Rightarrow> None)\<rparr>"

text \<open>The serialization of a stored document, with the defaults of the listing.\<close>

definition item_of :: "document \<Rightarrow> NotificationItem" where
  "item_of d =
     \<lparr>id' = py_str (doc_get d (py ''_id'') VNull),
      title = (case map_of d (py ''title'') of Some (VStr t) \<Rightarrow> t | _ \<Rightarrow> []),
      body = (case map_of d (py ''body'') of Some (VStr b) \<Rightarrow> b | _ \<Rightarrow> []),
      read = (case map_of d (py ''read'') of Some (VBool r) \<Rightarrow> r | _ \<Rightarrow> False),
      created_at = (case map_of d (py ''created_at'') of
                      Some (VDate t) \<Rightarrow> Some (isoformat 84 t) | _ \<Rightarrow> None)\<rparr>"

text \<open>The position of a document in a listing: the sort key of its \<open>created_at\<close>.\<close>

definition created_key :: "document \<Rightarrow> nat \<times> int \<times> pystr" where
  "created_key d = bson_key (doc_get d (py ''created_at'') VNull)"

text \<open>What marking all read does to one document.\<close>

definition read_pass :: "pystr \<Rightarrow> document \<Rightarrow> document" where
  "read_pass e d =
     (if matches [(py ''user_email'', VStr e), (py ''read'', VBool False)] d
      then foldl (\<lambda>d' (k, v). AList.update k v d') d [(py ''read'', VBool True)] else d)"

subsection \<open>Reachable datastores\<close>

text \<open>
  The datastores this system produces: it starts from a database without documents, and
  only registration, notification creation and marking read write to it.
\<close>

inductive reachable :: "mongo_db \<Rightarrow> bool" where
  start: "reachable \<lparr>name = n, colls = (\<lambda>_. []), next_id = i\<rparr>"
| registered: "reachable s \<Longrightarrow> snd (register (Some s) now d) = Some s' \<Longrightarrow> reachable s'"
| notified: "reachable s \<Longrightarrow> snd (create_notification (Some s) now c) = Some s' \<Longrightarrow> reachable s'"
| marked: "reachable s \<Longrightarrow> snd (mark_all_read (Some s) e) = Some s' \<Longrightarrow> reachable s'"

definition data_model :: "mongo_db \<Rightarrow> bool" where
  "data_model s =
     (list_all user_ok (colls s (py ''authuser''))
      \<and> list_all well_typed (colls s (py ''notification''))
      \<and> list_all has_read_flag (colls s (py ''notification''))
      \<and> (\<forall>e. user_count s e \<le> 1))"

subsection \<open>Example data\<close>

definition db_empty :: mongo_db where
  "db_empty = \<lparr>name = py ''app'', colls = (\<lambda>_. []), next_id = 0\<rparr>"

definition ann :: RegisterRequest where
  "ann = \<lparr>reg_name = py ''Ann'', reg_email = py ''ann@x.com'', reg_password = py ''pw1''\<rparr>"

definition ann_capital :: address where
  "ann_capital = \<lparr>local_part = py ''Ann'', domain = py ''x.com''\<rparr>"

definition ann_small :: address where
  "ann_small = \<lparr>local_part = py ''ann'', domain = py ''x.com''\<rparr>"

definition ann_domain :: address where
  "ann_domain = \<lparr>local_part = py ''ann'', domain = py ''X.com''\<rparr>"


definition surrogate_login :: LoginRequest where
  "surrogate_login = \<lparr>login_email = py ''ann@x.com'', login_password = [0xD800]\<rparr>"

definition ann_doc :: document where
  "ann_doc = [(py ''name'', VStr (py ''Ann'')),
              (py ''email'', VStr (py ''ann@x.com'')),
              (py ''password_hash'', VStr (hexdigest (sha256 [112, 119, 49]))),
              (py ''avatar_url'', VNull),
              (py ''created_at'', VDate 1000),
              (py ''_id'', VObjectId 0)]"

definition db_ann :: mongo_db where
  "db_ann = \<lparr>name = py ''app'', colls = (\<lambda>_. [])(py ''authuser'' := [ann_doc]), next_id = 1\<rparr>"

definition ann_login :: LoginRequest where
  "ann_login = \<lparr>login_email = py ''ann@x.com'', login_password = py ''pw1''\<rparr>"

definition bob_login :: LoginRequest where
  "bob_login = \<lparr>login_email = py ''bob@x.com'', login_password = py ''pw1''\<rparr>"

definition bob_note :: CreateNotificationRequest where
  "bob_note = \<lparr>cn_email = py ''bob@x.com'', cn_title = py ''Hello'', cn_body = py ''World''\<rparr>"

definition note_a :: CreateNotificationRequest where
  "note_a = \<lparr>cn_email = py ''ann@x.com'', cn_title = py ''First'', cn_body = py ''one''\<rparr>"

definition doc_a :: document where
  "doc_a = [(py ''user_email'', VStr (py ''ann@x.com'')),
            (py ''title'', VStr (py ''First'')),
            (py ''body'', VStr (py ''one'')),
            (py ''read'', VBool False),
            (py ''created_at'', VDate 5000),
            (py ''_id'', VObjectId 1)]"

definition doc_b :: document where
  "doc_b = [(py ''user_email'', VStr (py ''ann@x.com'')),
            (py ''title'', VStr (py ''Second'')),
            (py ''body'', VStr (py ''two'')),
            (py ''read'', VBool False),
            (py ''created_at'', VDate 6000),
            (py ''_id'', VObjectId 2)]"

definition doc_seen :: document where
  "doc_seen = [(py ''user_email'', VStr (py ''ann@x.com'')),
               (py ''title'', VStr (py ''First'')),
               (py ''body'', VStr (py ''one'')),
               (py ''read'', VBool True),
               (py ''created_at'', VDate 5000),
               (py ''_id'', VObjectId 1)]"


definition db_notes :: mongo_db where
  "db_notes = \<lparr>name = py ''app'',
                colls = ((\<lambda>_. [])(py ''authuser'' := [ann_doc]))
                          (py ''notification'' := [doc_a, doc_b]),
                next_id = 3\<rparr>"

definition db_unseen :: mongo_db where
  "db_unseen = \<lparr>name = py ''app'',
                 colls = ((\<lambda>_. [])(py ''authuser'' := [ann_doc]))(py ''notification'' := [doc_a]),
                 next_id = 2\<rparr>"

definition db_seen :: mongo_db where
  "db_seen = \<lparr>name = py ''app'',
               colls = ((\<lambda>_. [])(py ''authuser'' := [ann_doc]))(py ''notification'' := [doc_seen]),
               next_id = 2\<rparr>"

section \<open>The password digest\<close>

lemma length_sha_round: "length (sha_round st kw) = length st"
  by (induction st kw rule: sha_round.induct) (simp_all add: Let_def)

lemma length_rounds: "length (foldl sha_round st kws) = length st"
  by (induction kws arbitrary: st) (simp_all add: length_sha_round)

lemma length_compress: "length (compress hs b) = length hs"
  by (simp add: compress_def length_rounds)

lemma length_blocks: "length (foldl compress hs bs) = length hs"
  by (induction bs arbitrary: hs) (simp_all add: length_compress)

text \<open>The digest of a password is always 64 hexadecimal digits.\<close>

lemma length_hash_password:
  assumes "hash_password pw = Inr h"
  shows "length h = 64"
proof -
  have "length (sha256 m) = 32" for m
    by (simp add: sha256_def Let_def length_concat comp_def sum_list_triv length_blocks sha_H0_def)
  then show ?thesis
    using assms
    by (auto simp: hash_password_def hexdigest_def length_concat comp_def sum_list_triv
          split: sum.splits)
qed

lemma sha256_abc:
  "hash_password (py ''abc'')
     = Inr (py ''ba7816bf8f01cfea414140de5dae2223b00361a396177a9cb410ff61f20015ad'')"
  by code_simp

text \<open>A text can be encoded exactly when it has no surrogate.\<close>

lemma utf8_char_raises: "(utf8_char c = Inl e) = (surrogate c \<and> e = Unhandled UnicodeEncodeError)"
  by (auto simp: surrogate_def)

lemma encode_utf8_raises:
  "(encode_utf8 s = Inl e) = ((\<exists>c\<in>set s. surrogate c) \<and> e = Unhandled UnicodeEncodeError)"
proof (induction s)
  case Nil
  then show ?case by simp
next
  case (Cons c s)
  show ?case
  proof (cases "utf8_char c")
    case (Inl e')
    then show ?thesis
      using utf8_char_raises [of c e'] by auto
  next
    case (Inr b)
    then have "\<not> surrogate c"
      using utf8_char_raises [of c] by (metis sum.distinct(1))
    with Inr Cons show ?thesis
      by (auto split: sum.splits)
  qed
qed

lemma hash_password_raises:
  "(hash_password pw = Inl e) = ((\<exists>c\<in>set pw. surrogate c) \<and> e = Unhandled UnicodeEncodeError)"
  using encode_utf8_raises [of pw e] by (auto simp: hash_password_def split: sum.splits)

lemma hash_password_digest:
  "(hash_password pw = Inr h) = (\<exists>bs. encode_utf8 pw = Inr bs \<and> h = hexdigest (sha256 bs))"
  by (auto simp: hash_password_def split: sum.splits)

lemma hash_password_surrogate: "hash_password [0xD800] = Inl (Unhandled UnicodeEncodeError)"
  by (simp add: hash_password_raises surrogate_def)

lemma encode_utf8_pw1: "encode_utf8 (py ''pw1'') = Inr [112, 119, 49]"
  by (simp add: py_def)

lemma hash_password_pw1: "hash_password (py ''pw1'') = Inr (hexdigest (sha256 [112, 119, 49]))"
  by (simp add: hash_password_def encode_utf8_pw1)

section \<open>Queries\<close>

lemma py_eq_iff [simp]: "py a = py b \<longleftrightarrow> a = b"
  by (simp add: py_def inj_map_eq_map inj_of_char)

lemma matches_single: "matches [(k, VStr e)] d \<longleftrightarrow> map_of d k = Some (VStr e)"
  by (auto simp: matches_def split: option.splits)

lemma matches_nonempty: "matches [(k, VStr e)] d \<Longrightarrow> d \<noteq> []"
  by (auto simp: matches_single)

text \<open>A lookup by a text field is true exactly when some document matches.\<close>

lemma found_find_one: "found (find_one c [(k, VStr e)]) \<longleftrightarrow> find_docs c [(k, VStr e)] \<noteq> []"
proof (cases "find_one c [(k, VStr e)]")
  case None
  then show ?thesis
    by (simp add: found_def find_one_def find_docs_def find_None_iff filter_empty_conv)
next
  case (Some d)
  then have "matches [(k, VStr e)] d" and "d \<in> set c"
    by (auto simp: find_one_def find_Some_iff)
  then show ?thesis
    using Some matches_nonempty [of k e d]
    by (auto simp: found_def find_docs_def filter_empty_conv)
qed

lemma found_user_count:
  "found (find_one (colls s (py ''authuser'')) [(py ''email'', VStr e)]) \<longleftrightarrow> 0 < user_count s e"
  by (simp add: found_find_one user_count_def)

lemma find_one_user_count:
  "find_one (colls s (py ''authuser'')) [(py ''email'', VStr e)] = None \<longleftrightarrow> user_count s e = 0"
  by (auto simp: find_one_def find_None_iff user_count_def find_docs_def filter_empty_conv)

lemma find_one_found:
  assumes "find_one c [(k, VStr e)] = Some u"
  shows "found (Some u)" and "map_of u k = Some (VStr e)"
proof -
  from assms have m: "matches [(k, VStr e)] u"
    by (auto simp: find_one_def find_Some_iff)
  then show "map_of u k = Some (VStr e)"
    by (simp add: matches_single)
  from m show "found (Some u)"
    using matches_nonempty [of k e u] by (simp add: found_def)
qed

lemma user_count_db_ann: "user_count db_ann (py ''ann@x.com'') = 1"
  by (simp add: user_count_def find_docs_def matches_single db_ann_def ann_doc_def)

lemma user_count_db_empty: "user_count db_empty e = 0"
  by (simp add: user_count_def find_docs_def db_empty_def)

section \<open>Registration\<close>

text \<open>
  C1. A register request whose email already matches a User document (datastore
  available) fails with HTTP 400 and the detail "Email already registered"; nothing is
  inserted: the datastore is the one before the call, so the number of User documents
  with that email is what it was, and is 1 where it was 1.
\<close>

theorem register_existing_email_rejected:
  assumes "0 < user_count s (reg_email data)"
  shows "register (Some s) now data
           = (Inl (HTTPException 400 (py ''Email already registered'')), Some s)
         \<and> status_code (fst (register (Some s) now data)) = 400
         \<and> (user_count s (reg_email data) = 1 \<longrightarrow>
              (\<exists>s'. snd (register (Some s) now data) = Some s'
                    \<and> user_count s' (reg_email data) = 1))"
  using assms by (simp add: register_def found_user_count status_code_def)

theorem register_existing_email_rejected_witness:
  "0 < user_count db_ann (reg_email ann)
   \<and> user_count db_ann (reg_email ann) = 1
   \<and> register (Some db_ann) 2000 ann
       = (Inl (HTTPException 400 (py ''Email already registered'')), Some db_ann)
   \<and> (\<exists>s'. snd (register (Some db_ann) 2000 ann) = Some s' \<and> user_count s' (reg_email ann) = 1)"
proof -
  have e: "reg_email ann = py ''ann@x.com''"
    by (simp add: ann_def)
  have h: "0 < user_count db_ann (reg_email ann)"
    by (simp add: e user_count_db_ann)
  have one: "user_count db_ann (reg_email ann) = 1"
    by (simp add: e user_count_db_ann)
  from register_existing_email_rejected [OF h, of 2000] one h show ?thesis
    by blast
qed

text \<open>What registration does when the email is new: the digest decides.\<close>

lemma register_new_email:
  assumes "user_count s (reg_email data) = 0"
  shows "register (Some s) now data =
     (case hash_password (reg_password data) of
        Inl e \<Rightarrow> (Inl e, Some s)
      | Inr h \<Rightarrow>
          (Inr \<lparr>auth_name = reg_name data, auth_email = reg_email data, avatar_url = None\<rparr>,
           Some (s\<lparr>colls := (colls s)(py ''authuser'' := colls s (py ''authuser'') @
                      [[(py ''name'', VStr (reg_name data)),
                        (py ''email'', VStr (reg_email data)),
                        (py ''password_hash'', VStr h),
                        (py ''avatar_url'', VNull),
                        (py ''created_at'', VDate now),
                        (py ''_id'', VObjectId (next_id s))]]),
                    next_id := next_id s + 1\<rparr>)))"
  using assms
  by (simp add: register_def found_user_count create_document_def Let_def split: sum.splits)




lemma register_status_400:
  "status_code (fst (register (Some s) t d)) = 400 \<longleftrightarrow> 0 < user_count s (reg_email d)"
proof (cases "0 < user_count s (reg_email d)")
  case True
  then show ?thesis
    by (simp add: register_def found_user_count status_code_def)
next
  case False
  then have u: "user_count s (reg_email d) = 0" by simp
  show ?thesis
    using False hash_password_raises [of "reg_password d"]
    by (auto simp: register_new_email [OF u] status_code_def split: sum.splits)
qed

lemma register_available: "\<exists>s'. snd (register (Some s) t d) = Some s'"
proof (cases "0 < user_count s (reg_email d)")
  case True
  then show ?thesis
    by (simp add: register_def found_user_count)
next
  case False
  then have u: "user_count s (reg_email d) = 0" by simp
  show ?thesis
    by (simp add: register_new_email [OF u] split: sum.splits)
qed

lemma register_other_email:
  assumes "snd (register (Some s) t d) = Some s'" and "e \<noteq> reg_email d"
  shows "user_count s' e = user_count s e"
proof (cases "0 < user_count s (reg_email d)")
  case True
  with assms(1) show ?thesis
    by (simp add: register_def found_user_count)
next
  case False
  then have u: "user_count s (reg_email d) = 0" by simp
  from assms show ?thesis
    by (auto simp: register_new_email [OF u] user_count_def find_docs_def matches_single
          split: sum.splits)
qed

lemma reg_email_ann: "reg_email ann = py ''ann@x.com''"
  by (simp add: ann_def)

lemma register_ann: "snd (register (Some db_empty) 1000 ann) = Some db_ann"
proof -
  have u: "user_count db_empty (reg_email ann) = 0"
    by (rule user_count_db_empty)
  have "hash_password (reg_password ann) = Inr (hexdigest (sha256 [112, 119, 49]))"
    by (simp add: ann_def hash_password_pw1)
  then show ?thesis
    by (simp add: register_new_email [OF u])
       (simp add: db_empty_def db_ann_def ann_doc_def ann_def)
qed

subsection \<open>The case of an email\<close>

lemma reg_email_init: "reg_email (RegisterRequest_init n a p) = EmailStr a"
  by (simp add: RegisterRequest_init_def)

lemma EmailStr_ann_small: "EmailStr ann_small = py ''ann@x.com''"
  by (simp add: EmailStr_def ann_small_def lower_char_def py_def)

lemma EmailStr_ann_domain: "EmailStr ann_domain = py ''ann@x.com''"
  by (simp add: EmailStr_def ann_domain_def lower_char_def py_def)

lemma EmailStr_ann_capital: "EmailStr ann_capital = py ''Ann@x.com''"
  by (simp add: EmailStr_def ann_capital_def lower_char_def py_def)

lemma ann_request: "RegisterRequest_init (py ''Ann'') ann_small (py ''pw1'') = ann"
  by (simp add: RegisterRequest_init_def EmailStr_ann_small ann_def)

text \<open>
  C5, as stated, fails: the addresses \<open>ann@x.com\<close> and \<open>ann@X.com\<close> differ in character
  case, the second alone registers, and after the first is registered the second fails
  with HTTP 400, because request validation puts the domain in lower case.
\<close>

theorem register_domain_case_counterexample:
  "differ_in_case (written ann_small) (written ann_domain)
   \<and> status_code (fst (register (Some db_empty) 2000
                          (RegisterRequest_init (py ''Ann'') ann_domain (py ''pw1'')))) = 200
   \<and> status_code (fst (register
         (snd (register (Some db_empty) 1000
                 (RegisterRequest_init (py ''Ann'') ann_small (py ''pw1''))))
         2000 (RegisterRequest_init (py ''Ann'') ann_domain (py ''pw1'')))) = 400"
proof -
  have d: "differ_in_case (written ann_small) (written ann_domain)"
    by (simp add: differ_in_case_def written_def ann_small_def ann_domain_def lower_char_def
          py_def)
  have r: "RegisterRequest_init (py ''Ann'') ann_domain (py ''pw1'') = ann"
    by (simp add: RegisterRequest_init_def EmailStr_ann_domain ann_def)
  have u: "user_count db_empty (reg_email ann) = 0"
    by (rule user_count_db_empty)
  have h: "hash_password (reg_password ann) = Inr (hexdigest (sha256 [112, 119, 49]))"
    by (simp add: ann_def hash_password_pw1)
  have 1: "status_code (fst (register (Some db_empty) 2000 ann)) = 200"
    by (simp add: register_new_email [OF u] h status_code_def)
  have 2: "status_code (fst (register (snd (register (Some db_empty) 1000 ann)) 2000 ann)) = 400"
    by (simp add: register_ann register_status_400 reg_email_ann user_count_db_ann)
  from d 1 2 show ?thesis
    by (simp add: r ann_request)
qed

text \<open>
  C5 (amended). The duplicate check of registration is an exact match of the validated
  email texts, in which the local part is as written and the domain is in lower case. For
  two addresses whose validated texts differ, as those of two addresses of one domain whose
  local parts differ in character case do, registering the first does not make the
  registration of the second fail with HTTP 400: it fails with 400 exactly when a User with
  the second email was there before. Two addresses that differ only in the case of the
  domain have the same validated text.
\<close>

theorem register_email_case_sensitive:
  "(EmailStr a1 \<noteq> EmailStr a2 \<longrightarrow>
      (status_code (fst (register
          (snd (register (Some s) t1 (RegisterRequest_init n1 a1 p1)))
          t2 (RegisterRequest_init n2 a2 p2))) = 400
       \<longleftrightarrow> 0 < user_count s (EmailStr a2)))
   \<and> (differ_in_case (local_part a1) (local_part a2) \<and> domain a1 = domain a2 \<longrightarrow>
        EmailStr a1 \<noteq> EmailStr a2)
   \<and> (local_part a1 = local_part a2 \<and> differ_in_case (domain a1) (domain a2) \<longrightarrow>
        EmailStr a1 = EmailStr a2)"
proof (intro conjI impI)
  assume ne: "EmailStr a1 \<noteq> EmailStr a2"
  obtain s' where s': "snd (register (Some s) t1 (RegisterRequest_init n1 a1 p1)) = Some s'"
    using register_available by blast
  have "user_count s' (EmailStr a2) = user_count s (EmailStr a2)"
    using register_other_email [OF s', of "EmailStr a2"] ne
    by (simp add: reg_email_init)
  then show "status_code (fst (register
          (snd (register (Some s) t1 (RegisterRequest_init n1 a1 p1)))
          t2 (RegisterRequest_init n2 a2 p2))) = 400
       \<longleftrightarrow> 0 < user_count s (EmailStr a2)"
    by (simp add: s' register_status_400 reg_email_init)
next
  assume "differ_in_case (local_part a1) (local_part a2) \<and> domain a1 = domain a2"
  then show "EmailStr a1 \<noteq> EmailStr a2"
    by (simp add: differ_in_case_def EmailStr_def)
next
  assume "local_part a1 = local_part a2 \<and> differ_in_case (domain a1) (domain a2)"
  then show "EmailStr a1 = EmailStr a2"
    by (simp add: differ_in_case_def EmailStr_def)
qed

theorem register_email_case_sensitive_witness:
  "differ_in_case (local_part ann_small) (local_part ann_capital)
   \<and> domain ann_small = domain ann_capital
   \<and> EmailStr ann_small \<noteq> EmailStr ann_capital
   \<and> status_code (fst (register
         (snd (register (Some db_empty) 1000
                 (RegisterRequest_init (py ''Ann'') ann_small (py ''pw1''))))
         2000 (RegisterRequest_init (py ''Ann'') ann_capital (py ''pw2'')))) \<noteq> 400
   \<and> local_part ann_small = local_part ann_domain
   \<and> differ_in_case (domain ann_small) (domain ann_domain)
   \<and> EmailStr ann_small = EmailStr ann_domain"
proof -
  note t = register_email_case_sensitive [of ann_small ann_capital db_empty 1000 "py ''Ann''"
      "py ''pw1''" 2000 "py ''Ann''" "py ''pw2''"]
  have l: "differ_in_case (local_part ann_small) (local_part ann_capital)"
    by (simp add: differ_in_case_def ann_small_def ann_capital_def lower_char_def py_def)
  have d: "domain ann_small = domain ann_capital"
    by (simp add: ann_small_def ann_capital_def)
  from t l d have ne: "EmailStr ann_small \<noteq> EmailStr ann_capital"
    by blast
  have "\<not> 0 < user_count db_empty (EmailStr ann_capital)"
    by (simp add: user_count_db_empty)
  with t ne have 1: "status_code (fst (register
         (snd (register (Some db_empty) 1000
                 (RegisterRequest_init (py ''Ann'') ann_small (py ''pw1''))))
         2000 (RegisterRequest_init (py ''Ann'') ann_capital (py ''pw2'')))) \<noteq> 400"
    by blast
  have l2: "local_part ann_small = local_part ann_domain"
    by (simp add: ann_small_def ann_domain_def)
  have d2: "differ_in_case (domain ann_small) (domain ann_domain)"
    by (simp add: differ_in_case_def ann_small_def ann_domain_def lower_char_def py_def)
  from register_email_case_sensitive [of ann_small ann_domain] l2 d2
  have same: "EmailStr ann_small = EmailStr ann_domain"
    by blast
  from l d ne 1 l2 d2 same show ?thesis by blast
qed

section \<open>Login\<close>

lemma AuthResponse_init_status: "status_code (AuthResponse_init a b c) \<noteq> 401"
  by (induction a b c rule: AuthResponse_init.induct) (simp_all add: status_code_def)

lemma AuthResponse_init_ok:
  assumes "user_ok u" and "map_of u (py ''email'') = Some (VStr e)"
  shows "AuthResponse_init (doc_get u (py ''name'') VNull) (doc_get u (py ''email'') VNull)
           (doc_get u (py ''avatar_url'') VNull) = Inr (auth_of u)"
    and "auth_email (auth_of u) = e"
proof -
  from assms(1) obtain n where n: "doc_get u (py ''name'') VNull = VStr n"
    by (cases "doc_get u (py ''name'') VNull") (auto simp: user_ok_def)
  have e: "doc_get u (py ''email'') VNull = VStr e"
    using assms(2) by (simp add: doc_get_def)
  from assms(1) consider "doc_get u (py ''avatar_url'') VNull = VNull"
    | a where "doc_get u (py ''avatar_url'') VNull = VStr a"
    by (cases "doc_get u (py ''avatar_url'') VNull") (auto simp: user_ok_def)
  then show "AuthResponse_init (doc_get u (py ''name'') VNull) (doc_get u (py ''email'') VNull)
           (doc_get u (py ''avatar_url'') VNull) = Inr (auth_of u)"
    by cases (simp_all add: n e auth_of_def)
  show "auth_email (auth_of u) = e"
    by (simp add: auth_of_def e)
qed

text \<open>What login does when a User matches the email: the digest decides.\<close>

lemma login_known_email:
  assumes "find_one (colls s (py ''authuser'')) [(py ''email'', VStr (login_email data))] = Some u"
  shows "login (Some s) data =
     (case hash_password (login_password data) of
        Inl e \<Rightarrow> (Inl e, Some s)
      | Inr h \<Rightarrow>
          if doc_get u (py ''password_hash'') VNull \<noteq> VStr h
          then (Inl (HTTPException 401 (py ''Invalid credentials'')), Some s)
          else (AuthResponse_init (doc_get u (py ''name'') VNull)
                  (doc_get u (py ''email'') VNull) (doc_get u (py ''avatar_url'') VNull),
                Some s))"
  using assms find_one_found(1) [OF assms]
  by (simp add: login_def split: sum.splits)

lemma login_unknown_email:
  assumes "user_count s (login_email data) = 0"
  shows "login (Some s) data = (Inl (HTTPException 401 (py ''Invalid credentials'')), Some s)"
proof -
  from assms have "find_one (colls s (py ''authuser'')) [(py ''email'', VStr (login_email data))]
                     = None"
    by (simp add: find_one_user_count)
  then show ?thesis
    by (simp add: login_def found_def)
qed

lemma find_one_ann:
  "find_one (colls db_ann (py ''authuser'')) [(py ''email'', VStr (py ''ann@x.com''))] = Some ann_doc"
  by (simp add: find_one_def db_ann_def matches_single ann_doc_def)

lemma user_ok_ann: "user_ok ann_doc"
  by (simp add: user_ok_def doc_get_def ann_doc_def)

text \<open>
  C4, as stated, fails: for a registered email and a password with a lone surrogate the
  digest raises, and the request ends in a server error: neither HTTP 401 nor the stored
  record.
\<close>

theorem login_unencodable_password_counterexample:
  "user_count db_ann (login_email surrogate_login) = 1
   \<and> login (Some db_ann) surrogate_login = (Inl (Unhandled UnicodeEncodeError), Some db_ann)
   \<and> status_code (fst (login (Some db_ann) surrogate_login)) = 500"
proof -
  have f: "find_one (colls db_ann (py ''authuser''))
             [(py ''email'', VStr (login_email surrogate_login))] = Some ann_doc"
    by (simp add: surrogate_login_def find_one_ann)
  have p: "hash_password (login_password surrogate_login) = Inl (Unhandled UnicodeEncodeError)"
    by (simp add: surrogate_login_def hash_password_surrogate)
  have u: "user_count db_ann (login_email surrogate_login) = 1"
    by (simp add: surrogate_login_def user_count_db_ann)
  from login_known_email [OF f] p u show ?thesis
    by (simp add: status_code_def)
qed

text \<open>
  C4 (amended). A login request (datastore available) fails with HTTP 401 exactly when no
  User document matches its validated email, or the password can be encoded as UTF-8 and the
  \<open>password_hash\<close> of the matching document is not the SHA-256 hex digest of the encoded
  password. When a User matches and its \<open>password_hash\<close> is that digest, the request
  returns the name, email and \<open>avatar_url\<close> of the stored User record. When a User matches
  and the password cannot be encoded, the digest raises and the request fails with that
  exception.
\<close>

theorem login_unauthorized_iff:
  "(status_code (fst (login (Some s) data)) = 401
      \<longleftrightarrow> user_count s (login_email data) = 0
          \<or> (\<exists>u bs. find_one (colls s (py ''authuser'')) [(py ''email'', VStr (login_email data))]
                       = Some u
                   \<and> encode_utf8 (login_password data) = Inr bs
                   \<and> doc_get u (py ''password_hash'') VNull \<noteq> VStr (hexdigest (sha256 bs))))
   \<and> (\<forall>u bs. find_one (colls s (py ''authuser'')) [(py ''email'', VStr (login_email data))]
                 = Some u
             \<and> encode_utf8 (login_password data) = Inr bs
             \<and> doc_get u (py ''password_hash'') VNull = VStr (hexdigest (sha256 bs))
             \<and> user_ok u
          \<longrightarrow> login (Some s) data = (Inr (auth_of u), Some s)
              \<and> auth_email (auth_of u) = login_email data)
   \<and> (\<forall>u. find_one (colls s (py ''authuser'')) [(py ''email'', VStr (login_email data))]
              = Some u
           \<and> (\<exists>c\<in>set (login_password data). surrogate c)
          \<longrightarrow> login (Some s) data = (Inl (Unhandled UnicodeEncodeError), Some s))"
proof (cases "find_one (colls s (py ''authuser'')) [(py ''email'', VStr (login_email data))]")
  case None
  then have u: "user_count s (login_email data) = 0"
    by (simp add: find_one_user_count)
  from login_unknown_email [OF u] None u show ?thesis
    by (simp add: status_code_def)
next
  case (Some u)
  then have c: "user_count s (login_email data) \<noteq> 0"
    using find_one_user_count [of s "login_email data"] by simp
  note f = find_one_found [OF Some]
  note l = login_known_email [OF Some]
  show ?thesis
  proof (cases "encode_utf8 (login_password data)")
    case (Inl e)
    then have e: "e = Unhandled UnicodeEncodeError"
      and sur: "\<exists>c\<in>set (login_password data). surrogate c"
      using encode_utf8_raises [of "login_password data" e] by simp_all
    from Inl have "hash_password (login_password data) = Inl e"
      by (simp add: hash_password_def)
    with l e Some c Inl show ?thesis
      by (simp add: status_code_def)
  next
    case (Inr bs)
    then have nosur: "\<not> (\<exists>c\<in>set (login_password data). surrogate c)"
      using encode_utf8_raises [of "login_password data" "Unhandled UnicodeEncodeError"] by auto
    from Inr have h: "hash_password (login_password data) = Inr (hexdigest (sha256 bs))"
      by (simp add: hash_password_def)
    show ?thesis
    proof (cases "doc_get u (py ''password_hash'') VNull = VStr (hexdigest (sha256 bs))")
      case True
      with l h Some c Inr nosur AuthResponse_init_ok [OF _ f(2)] show ?thesis
        by (simp add: AuthResponse_init_status)
    next
      case False
      with l h Some c Inr nosur show ?thesis
        by (simp add: status_code_def)
    qed
  qed
qed

theorem login_unauthorized_iff_witness:
  "login (Some db_ann) ann_login
     = (Inr \<lparr>auth_name = py ''Ann'', auth_email = py ''ann@x.com'', avatar_url = None\<rparr>,
        Some db_ann)
   \<and> status_code (fst (login (Some db_ann) bob_login)) = 401
   \<and> login (Some db_ann) surrogate_login = (Inl (Unhandled UnicodeEncodeError), Some db_ann)"
proof -
  have b: "encode_utf8 (login_password ann_login) = Inr [112, 119, 49]"
    by (simp add: ann_login_def encode_utf8_pw1)
  have p: "doc_get ann_doc (py ''password_hash'') VNull = VStr (hexdigest (sha256 [112, 119, 49]))"
    by (simp add: doc_get_def ann_doc_def)
  have f: "find_one (colls db_ann (py ''authuser''))
             [(py ''email'', VStr (login_email ann_login))] = Some ann_doc"
    by (simp add: ann_login_def find_one_ann)
  have a: "auth_of ann_doc
             = \<lparr>auth_name = py ''Ann'', auth_email = py ''ann@x.com'', avatar_url = None\<rparr>"
    by (simp add: auth_of_def doc_get_def ann_doc_def)
  have 1: "login (Some db_ann) ann_login = (Inr (auth_of ann_doc), Some db_ann)"
    using login_unauthorized_iff [of db_ann ann_login] b p f user_ok_ann by blast
  have u: "user_count db_ann (login_email bob_login) = 0"
    by (simp add: user_count_def find_docs_def matches_single db_ann_def ann_doc_def bob_login_def)
  have 2: "status_code (fst (login (Some db_ann) bob_login)) = 401"
    using login_unauthorized_iff [of db_ann bob_login] u by blast
  have fs: "find_one (colls db_ann (py ''authuser''))
             [(py ''email'', VStr (login_email surrogate_login))] = Some ann_doc"
    by (simp add: surrogate_login_def find_one_ann)
  have s: "\<exists>c\<in>set (login_password surrogate_login). surrogate c"
    by (simp add: surrogate_login_def surrogate_def)
  have 3: "login (Some db_ann) surrogate_login = (Inl (Unhandled UnicodeEncodeError), Some db_ann)"
    using login_unauthorized_iff [of db_ann surrogate_login] fs s by blast
  from 1 2 3 a show ?thesis by simp
qed

section \<open>Creating notifications\<close>

lemma create_notification_known:
  assumes "0 < user_count s (cn_email data)"
  shows "create_notification (Some s) now data
           = (Inr [(py ''id'', py_str (VObjectId (next_id s))), (py ''status'', py ''created'')],
              Some (s\<lparr>colls := (colls s)(py ''notification'' := colls s (py ''notification'') @
                         [[(py ''user_email'', VStr (cn_email data)),
                           (py ''title'', VStr (cn_title data)),
                           (py ''body'', VStr (cn_body data)),
                           (py ''read'', VBool False),
                           (py ''created_at'', VDate now),
                           (py ''_id'', VObjectId (next_id s))]]),
                       next_id := next_id s + 1\<rparr>))"
  using assms
  by (simp add: create_notification_def found_user_count create_document_def Let_def
        del: py_str.simps)

text \<open>
  C6. A notification request whose email matches no User document (datastore available)
  fails with HTTP 404, and no Notification document is inserted: the datastore, and so
  the notification collection, is the one before the call.
\<close>

theorem create_notification_unknown_user:
  assumes "user_count s (cn_email data) = 0"
  shows "create_notification (Some s) now data
           = (Inl (HTTPException 404 (py ''User not found'')), Some s)
         \<and> status_code (fst (create_notification (Some s) now data)) = 404
         \<and> (\<exists>s'. snd (create_notification (Some s) now data) = Some s'
               \<and> colls s' (py ''notification'') = colls s (py ''notification''))"
  using assms by (simp add: create_notification_def found_user_count status_code_def)

theorem create_notification_unknown_user_witness:
  "user_count db_ann (cn_email bob_note) = 0
   \<and> create_notification (Some db_ann) 3000 bob_note
       = (Inl (HTTPException 404 (py ''User not found'')), Some db_ann)"
proof -
  have h: "user_count db_ann (cn_email bob_note) = 0"
    by (simp add: user_count_def find_docs_def matches_single db_ann_def ann_doc_def bob_note_def)
  from create_notification_unknown_user [OF h, of 3000] h show ?thesis
    by blast
qed

text \<open>The creation endpoint stores well-typed documents, each with its \<open>read\<close> flag.\<close>

lemma create_notification_well_typed:
  assumes "list_all well_typed (colls s (py ''notification''))"
    and "snd (create_notification (Some s) now data) = Some s'"
  shows "list_all well_typed (colls s' (py ''notification''))"
proof (cases "0 < user_count s (cn_email data)")
  case True
  from create_notification_known [OF True, of now] assms show ?thesis
    by (auto simp: well_typed_def field_ok_def)
next
  case False
  then have "create_notification (Some s) now data
               = (Inl (HTTPException 404 (py ''User not found'')), Some s)"
    by (simp add: create_notification_def found_user_count)
  with assms show ?thesis by simp
qed

lemma create_notification_has_read_flag:
  assumes "list_all has_read_flag (colls s (py ''notification''))"
    and "snd (create_notification (Some s) now data) = Some s'"
  shows "list_all has_read_flag (colls s' (py ''notification''))"
proof (cases "0 < user_count s (cn_email data)")
  case True
  from create_notification_known [OF True, of now] assms show ?thesis
    by (auto simp: has_read_flag_def doc_get_def)
next
  case False
  then have "create_notification (Some s) now data
               = (Inl (HTTPException 404 (py ''User not found'')), Some s)"
    by (simp add: create_notification_def found_user_count)
  with assms show ?thesis by simp
qed

lemma create_notification_users:
  assumes "snd (create_notification (Some s) now c) = Some s'"
  shows "colls s' (py ''authuser'') = colls s (py ''authuser'')"
proof (cases "0 < user_count s (cn_email c)")
  case True
  from create_notification_known [OF True, of now] assms show ?thesis
    by auto
next
  case False
  then have "create_notification (Some s) now c
               = (Inl (HTTPException 404 (py ''User not found'')), Some s)"
    by (simp add: create_notification_def found_user_count)
  with assms show ?thesis by simp
qed

section \<open>Listing notifications\<close>

subsection \<open>The descending sort\<close>

lemma mset_insort_desc: "mset (insort_desc k x ys) = add_mset x (mset ys)"
  by (induction ys) simp_all

lemma mset_sort_desc: "mset (sort_desc f ds) = mset ds"
  unfolding sort_desc_def by (induction ds) (simp_all add: mset_insort_desc)

lemma set_sort_desc: "set (sort_desc f ds) = set ds"
  using mset_sort_desc [of f ds] by (metis set_mset_mset)

lemma set_insort_desc: "set (insort_desc k x ys) = insert x (set ys)"
  using mset_insort_desc [of k x ys] by (metis set_mset_mset set_mset_add_mset_insert)

lemma descending_insort_desc:
  assumes "sorted_wrt (\<lambda>a b. k b \<le> k a) ys"
  shows "sorted_wrt (\<lambda>a b. k b \<le> k a) (insort_desc k x ys)"
  using assms
proof (induction ys)
  case Nil
  then show ?case by simp
next
  case (Cons y ys)
  show ?case
  proof (cases "k y \<le> k x")
    case True
    with Cons.prems show ?thesis
      by (auto intro: order_trans)
  next
    case False
    then have "k x \<le> k y" by simp
    with False Cons show ?thesis
      by (auto simp: set_insort_desc)
  qed
qed

lemma descending_sort_desc: "sorted_wrt (\<lambda>a b. created_key b \<le> created_key a) (sort_desc (py ''created_at'') ds)"
proof -
  have "sorted_wrt (\<lambda>a b. created_key b \<le> created_key a) (foldr (insort_desc created_key) ds [])"
    by (induction ds) (simp_all add: descending_insort_desc)
  moreover have "created_key = (\<lambda>d. bson_key (doc_get d (py ''created_at'') VNull))"
    by (simp add: created_key_def fun_eq_iff)
  ultimately show ?thesis
    by (simp add: sort_desc_def)
qed

text \<open>In a descending list, an element with a larger key stands before one with a smaller key.\<close>

lemma descending_positions:
  fixes k :: "'a \<Rightarrow> 'k::linorder"
  assumes "sorted_wrt (\<lambda>a b. k b \<le> k a) xs" and "x \<in> set xs" and "y \<in> set xs" and "k x < k y"
  shows "\<exists>i j. i < j \<and> j < length xs \<and> xs ! i = y \<and> xs ! j = x"
proof -
  from assms(3) obtain i where i: "i < length xs" "xs ! i = y"
    by (auto simp: in_set_conv_nth)
  from assms(2) obtain j where j: "j < length xs" "xs ! j = x"
    by (auto simp: in_set_conv_nth)
  have "\<not> j < i"
  proof
    assume "j < i"
    then have "k (xs ! i) \<le> k (xs ! j)"
      using sorted_wrt_nth_less [OF assms(1), of j i] i(1) by simp
    with i(2) j(2) assms(4) show False by simp
  qed
  moreover have "i \<noteq> j"
    using i(2) j(2) assms(4) by auto
  ultimately have "i < j" by simp
  with i j show ?thesis by blast
qed

subsection \<open>Serialization\<close>

lemma text_field_default:
  assumes "field_ok d k is_str"
  shows "doc_get d k (VStr []) = VStr (case map_of d k of Some (VStr t) \<Rightarrow> t | _ \<Rightarrow> [])"
proof (cases "map_of d k")
  case None
  then show ?thesis by (simp add: doc_get_def)
next
  case (Some v)
  with assms show ?thesis
    by (cases v) (simp_all add: doc_get_def field_ok_def)
qed

lemma read_field_default:
  assumes "field_ok d k is_bool"
  shows "truthy (doc_get d k (VBool False))
           = (case map_of d k of Some (VBool r) \<Rightarrow> r | _ \<Rightarrow> False)"
proof (cases "map_of d k")
  case None
  then show ?thesis by (simp add: doc_get_def)
next
  case (Some v)
  with assms show ?thesis
    by (cases v) (simp_all add: doc_get_def field_ok_def)
qed

lemma created_at_arg_default:
  assumes "field_ok d (py ''created_at'') is_date"
  shows "created_at_arg d
           = Inr (case map_of d (py ''created_at'') of
                    Some (VDate t) \<Rightarrow> Some (isoformat 84 t) | _ \<Rightarrow> None)"
proof (cases "map_of d (py ''created_at'')")
  case None
  then show ?thesis by (simp add: created_at_arg_def doc_get_def)
next
  case (Some v)
  with assms show ?thesis
    by (cases v) (simp_all add: created_at_arg_def doc_get_def field_ok_def)
qed

lemma notification_item_well_typed:
  assumes "well_typed d"
  shows "notification_item d = Inr (item_of d)"
proof -
  from assms have t: "field_ok d (py ''title'') is_str" and b: "field_ok d (py ''body'') is_str"
    and r: "field_ok d (py ''read'') is_bool" and c: "field_ok d (py ''created_at'') is_date"
    by (simp_all add: well_typed_def)
  show ?thesis
    by (simp add: notification_item_def created_at_arg_default [OF c]
          text_field_default [OF t] text_field_default [OF b] read_field_default [OF r]
          item_of_def)
qed

lemma items_loop_well_typed:
  assumes "list_all well_typed ds"
  shows "items_loop ds acc = Inr (acc @ map item_of ds)"
  using assms
  by (induction ds arbitrary: acc) (simp_all add: notification_item_well_typed)

lemma list_notifications_eq:
  "list_notifications (Some s) e
     = (items_loop (sort_desc (py ''created_at'') (notifications_of s e)) [], Some s)"
  by (simp add: list_notifications_def notifications_of_def)

lemma list_notifications_well_typed:
  assumes "list_all well_typed (notifications_of s e)"
  shows "list_notifications (Some s) e
           = (Inr (map item_of (sort_desc (py ''created_at'') (notifications_of s e))), Some s)"
proof -
  have "list_all well_typed (sort_desc (py ''created_at'') (notifications_of s e))"
    using assms by (simp add: list_all_iff set_sort_desc)
  then show ?thesis
    by (simp add: list_notifications_eq items_loop_well_typed)
qed




text \<open>
  C8. The listing makes no existence check on the email: its result does not depend on
  the User documents, and for an email with no Notification document (datastore
  available) it is the empty list, not an error.
\<close>

theorem list_notifications_unknown_email:
  "(notifications_of s e = [] \<longrightarrow> list_notifications (Some s) e = (Inr [], Some s))
   \<and> fst (list_notifications (Some (s\<lparr>colls := (colls s)(py ''authuser'' := us)\<rparr>)) e)
       = fst (list_notifications (Some s) e)"
  by (simp add: list_notifications_def notifications_of_def sort_desc_def)

theorem list_notifications_unknown_email_witness:
  "user_count db_ann (py ''bob@x.com'') = 0
   \<and> notifications_of db_ann (py ''bob@x.com'') = []
   \<and> list_notifications (Some db_ann) (py ''bob@x.com'') = (Inr [], Some db_ann)"
proof -
  have u: "user_count db_ann (py ''bob@x.com'') = 0"
    by (simp add: user_count_def find_docs_def matches_single db_ann_def ann_doc_def)
  have n: "notifications_of db_ann (py ''bob@x.com'') = []"
    by (simp add: notifications_of_def find_docs_def db_ann_def)
  from list_notifications_unknown_email [of db_ann "py ''bob@x.com''"] u n show ?thesis
    by blast
qed

subsection \<open>Newest first\<close>

lemma created_key_date:
  assumes "map_of d (py ''created_at'') = Some (VDate t)"
  shows "created_key d = (10, t, [])"
  using assms by (simp add: created_key_def doc_get_def)

text \<open>
  C2. A Notification document inserted by the creation endpoint carries the
  \<open>created_at\<close> timestamp of the insert, and the listing returns all Notifications of
  the email in descending order of \<open>created_at\<close>: of two documents with timestamps
  \<open>t1 < t2\<close>, the one of \<open>t2\<close> stands before the one of \<open>t1\<close>.
\<close>

theorem notifications_listed_newest_first:
  "(0 < user_count s (cn_email data) \<longrightarrow>
      (\<exists>stored s'. snd (create_notification (Some s) now data) = Some s'
          \<and> colls s' (py ''notification'') = colls s (py ''notification'') @ [stored]
          \<and> map_of stored (py ''created_at'') = Some (VDate now)
          \<and> map_of stored (py ''user_email'') = Some (VStr (cn_email data))))
   \<and> (list_all well_typed (notifications_of s e) \<longrightarrow>
        (\<exists>ds. list_notifications (Some s) e = (Inr (map item_of ds), Some s)
            \<and> mset ds = mset (notifications_of s e)
            \<and> sorted_wrt (\<lambda>a b. created_key b \<le> created_key a) ds
            \<and> (\<forall>d1 d2 t1 t2.
                  d1 \<in> set (notifications_of s e) \<and> d2 \<in> set (notifications_of s e)
                  \<and> map_of d1 (py ''created_at'') = Some (VDate t1)
                  \<and> map_of d2 (py ''created_at'') = Some (VDate t2) \<and> t1 < t2
                  \<longrightarrow> (\<exists>i j. i < j \<and> j < length ds \<and> ds ! i = d2 \<and> ds ! j = d1))))"
proof (intro conjI impI)
  assume "0 < user_count s (cn_email data)"
  from create_notification_known [OF this, of now]
  show "\<exists>stored s'. snd (create_notification (Some s) now data) = Some s'
          \<and> colls s' (py ''notification'') = colls s (py ''notification'') @ [stored]
          \<and> map_of stored (py ''created_at'') = Some (VDate now)
          \<and> map_of stored (py ''user_email'') = Some (VStr (cn_email data))"
    by simp
next
  assume wt: "list_all well_typed (notifications_of s e)"
  define ds where "ds = sort_desc (py ''created_at'') (notifications_of s e)"
  have l: "list_notifications (Some s) e = (Inr (map item_of ds), Some s)"
    using list_notifications_well_typed [OF wt] by (simp add: ds_def)
  have m: "mset ds = mset (notifications_of s e)"
    by (simp add: ds_def mset_sort_desc)
  have d: "sorted_wrt (\<lambda>a b. created_key b \<le> created_key a) ds"
    by (simp add: ds_def descending_sort_desc)
  have p: "\<exists>i j. i < j \<and> j < length ds \<and> ds ! i = d2 \<and> ds ! j = d1"
    if "d1 \<in> set (notifications_of s e)" "d2 \<in> set (notifications_of s e)"
      "map_of d1 (py ''created_at'') = Some (VDate t1)"
      "map_of d2 (py ''created_at'') = Some (VDate t2)" "t1 < t2" for d1 d2 t1 t2
  proof -
    have "created_key d1 < created_key d2"
      using that(3-5) by (simp add: created_key_date)
    moreover have "d1 \<in> set ds" "d2 \<in> set ds"
      using that(1,2) by (simp_all add: ds_def set_sort_desc)
    ultimately show ?thesis
      using descending_positions [OF d] by blast
  qed
  show "\<exists>ds. list_notifications (Some s) e = (Inr (map item_of ds), Some s)
            \<and> mset ds = mset (notifications_of s e)
            \<and> sorted_wrt (\<lambda>a b. created_key b \<le> created_key a) ds
            \<and> (\<forall>d1 d2 t1 t2.
                  d1 \<in> set (notifications_of s e) \<and> d2 \<in> set (notifications_of s e)
                  \<and> map_of d1 (py ''created_at'') = Some (VDate t1)
                  \<and> map_of d2 (py ''created_at'') = Some (VDate t2) \<and> t1 < t2
                  \<longrightarrow> (\<exists>i j. i < j \<and> j < length ds \<and> ds ! i = d2 \<and> ds ! j = d1))"
    using l m d p by blast
qed

lemma notifications_of_db_notes: "notifications_of db_notes (py ''ann@x.com'') = [doc_a, doc_b]"
  by (simp add: notifications_of_def find_docs_def matches_single db_notes_def doc_a_def doc_b_def)

lemma sort_desc_db_notes: "sort_desc (py ''created_at'') [doc_a, doc_b] = [doc_b, doc_a]"
  by (simp add: sort_desc_def doc_get_def doc_a_def doc_b_def)

lemma well_typed_docs: "well_typed doc_a" "well_typed doc_b"
  by (simp_all add: well_typed_def field_ok_def doc_a_def doc_b_def)

lemma user_count_ann_note: "user_count db_notes (cn_email note_a) = 1"
  by (simp add: user_count_def find_docs_def matches_single db_notes_def ann_doc_def note_a_def)

theorem notifications_listed_newest_first_witness:
  "0 < user_count db_notes (cn_email note_a)
   \<and> list_all well_typed (notifications_of db_notes (py ''ann@x.com''))
   \<and> (\<exists>stored s'. snd (create_notification (Some db_notes) 7000 note_a) = Some s'
          \<and> colls s' (py ''notification'') = colls db_notes (py ''notification'') @ [stored]
          \<and> map_of stored (py ''created_at'') = Some (VDate 7000))
   \<and> map_of doc_a (py ''created_at'') = Some (VDate 5000)
   \<and> map_of doc_b (py ''created_at'') = Some (VDate 6000)
   \<and> (\<exists>ds. list_notifications (Some db_notes) (py ''ann@x.com'')
               = (Inr (map item_of ds), Some db_notes)
          \<and> (\<exists>i j. i < j \<and> j < length ds \<and> ds ! i = doc_b \<and> ds ! j = doc_a))
   \<and> list_notifications (Some db_notes) (py ''ann@x.com'')
       = (Inr [item_of doc_b, item_of doc_a], Some db_notes)"
proof -
  have u: "0 < user_count db_notes (cn_email note_a)"
    by (simp add: user_count_ann_note)
  have w: "list_all well_typed (notifications_of db_notes (py ''ann@x.com''))"
    by (simp add: notifications_of_db_notes well_typed_docs)
  have a: "doc_a \<in> set (notifications_of db_notes (py ''ann@x.com''))"
    and b: "doc_b \<in> set (notifications_of db_notes (py ''ann@x.com''))"
    by (simp_all add: notifications_of_db_notes)
  have ta: "map_of doc_a (py ''created_at'') = Some (VDate 5000)"
    by (simp add: doc_a_def)
  have tb: "map_of doc_b (py ''created_at'') = Some (VDate 6000)"
    by (simp add: doc_b_def)
  have lt: "(5000::int) < 6000"
    by simp
  note t = notifications_listed_newest_first [of db_notes note_a 7000 "py ''ann@x.com''"]
  from t u have 1: "\<exists>stored s'. snd (create_notification (Some db_notes) 7000 note_a) = Some s'
          \<and> colls s' (py ''notification'') = colls db_notes (py ''notification'') @ [stored]
          \<and> map_of stored (py ''created_at'') = Some (VDate 7000)"
    by blast
  from t w obtain ds where ds: "list_notifications (Some db_notes) (py ''ann@x.com'')
        = (Inr (map item_of ds), Some db_notes)"
    and pos: "\<forall>d1 d2 t1 t2.
        d1 \<in> set (notifications_of db_notes (py ''ann@x.com''))
        \<and> d2 \<in> set (notifications_of db_notes (py ''ann@x.com''))
        \<and> map_of d1 (py ''created_at'') = Some (VDate t1)
        \<and> map_of d2 (py ''created_at'') = Some (VDate t2) \<and> t1 < t2
        \<longrightarrow> (\<exists>i j. i < j \<and> j < length ds \<and> ds ! i = d2 \<and> ds ! j = d1)"
    by blast
  from pos a b ta tb lt have 2: "\<exists>i j. i < j \<and> j < length ds \<and> ds ! i = doc_b \<and> ds ! j = doc_a"
    by blast
  have 3: "list_notifications (Some db_notes) (py ''ann@x.com'')
       = (Inr [item_of doc_b, item_of doc_a], Some db_notes)"
    using list_notifications_well_typed [OF w]
    by (simp add: notifications_of_db_notes sort_desc_db_notes)
  from u w 1 ta tb ds 2 3 show ?thesis by blast
qed

section \<open>Marking notifications read\<close>

lemma unread_filter:
  "matches [(py ''user_email'', VStr e), (py ''read'', VBool False)] d
     \<longleftrightarrow> map_of d (py ''user_email'') = Some (VStr e) \<and> map_of d (py ''read'') = Some (VBool False)"
  by (auto simp: matches_def split: option.splits)

lemma read_pass_eq:
  "read_pass e d =
     (if map_of d (py ''user_email'') = Some (VStr e) \<and> map_of d (py ''read'') = Some (VBool False)
      then AList.update (py ''read'') (VBool True) d else d)"
  by (simp add: read_pass_def unread_filter)

lemma mark_all_read_eq:
  "mark_all_read (Some s) e
     = (Inr [(py ''status'', py ''ok'')],
        Some (s\<lparr>colls := (colls s)(py ''notification'' :=
                 map (read_pass e) (colls s (py ''notification'')))\<rparr>))"
proof -
  have "update_many c [(py ''user_email'', VStr e), (py ''read'', VBool False)]
          [(py ''read'', VBool True)] = map (read_pass e) c" for c
    by (simp add: update_many_def read_pass_def)
  then show ?thesis
    by (simp add: mark_all_read_def)
qed

lemma set_read_fields:
  "map_of (AList.update (py ''read'') (VBool True) d) (py ''read'') = Some (VBool True)"
  "map_of (AList.update (py ''read'') (VBool True) d) (py ''user_email'') = map_of d (py ''user_email'')"
  by (simp_all add: update_conv')

text \<open>One pass leaves no unread document of the email, so a second pass changes nothing.\<close>

lemma read_pass_idempotent: "read_pass e (read_pass e d) = read_pass e d"
  by (simp add: read_pass_eq set_read_fields)

lemma read_pass_email:
  "matches [(py ''user_email'', VStr e)] (read_pass e d) = matches [(py ''user_email'', VStr e)] d"
  by (simp add: read_pass_eq matches_single set_read_fields)

lemma read_pass_reads:
  assumes "matches [(py ''user_email'', VStr e)] d" and "has_read_flag d"
  shows "map_of (read_pass e d) (py ''read'') = Some (VBool True)"
proof -
  from assms(2) obtain b where b: "map_of d (py ''read'') = Some (VBool b)"
    by (cases "map_of d (py ''read'')"; cases "doc_get d (py ''read'') VNull")
       (auto simp: has_read_flag_def doc_get_def)
  with assms(1) show ?thesis
    by (cases b) (simp_all add: read_pass_eq matches_single set_read_fields)
qed

lemma read_pass_unchanged:
  assumes "matches [(py ''user_email'', VStr e)] d \<longrightarrow> map_of d (py ''read'') \<noteq> Some (VBool False)"
  shows "read_pass e d = d"
  using assms by (auto simp: read_pass_eq matches_single)

text \<open>
  C7. Marking all read always returns \<open>{status: "ok"}\<close> (datastore available), also when
  no document matches, the datastore then being unchanged. After one call every
  Notification of the email has \<open>read = true\<close>, and a second call with the same email
  changes no document.
\<close>

theorem mark_all_read_idempotent:
  "fst (mark_all_read (Some s) e) = Inr [(py ''status'', py ''ok'')]
   \<and> (\<exists>s1. snd (mark_all_read (Some s) e) = Some s1
          \<and> mark_all_read (Some s1) e = (Inr [(py ''status'', py ''ok'')], Some s1)
          \<and> length (notifications_of s1 e) = length (notifications_of s e)
          \<and> (list_all has_read_flag (notifications_of s e) \<longrightarrow>
               list_all (\<lambda>d. map_of d (py ''read'') = Some (VBool True)) (notifications_of s1 e)))
   \<and> (list_all (\<lambda>d. map_of d (py ''read'') \<noteq> Some (VBool False)) (notifications_of s e) \<longrightarrow>
        mark_all_read (Some s) e = (Inr [(py ''status'', py ''ok'')], Some s))"
proof -
  define c where "c = colls s (py ''notification'')"
  define s1 where "s1 = s\<lparr>colls := (colls s)(py ''notification'' := map (read_pass e) c)\<rparr>"
  have m: "mark_all_read (Some s) e = (Inr [(py ''status'', py ''ok'')], Some s1)"
    by (simp add: mark_all_read_eq s1_def c_def)
  have again: "mark_all_read (Some s1) e = (Inr [(py ''status'', py ''ok'')], Some s1)"
    by (simp add: mark_all_read_eq s1_def comp_def read_pass_idempotent)
  have n1: "notifications_of s1 e
              = map (read_pass e) (filter (matches [(py ''user_email'', VStr e)]) c)"
    by (simp add: notifications_of_def find_docs_def s1_def filter_map comp_def read_pass_email)
  have n: "notifications_of s e = filter (matches [(py ''user_email'', VStr e)]) c"
    by (simp add: notifications_of_def find_docs_def c_def)
  have len: "length (notifications_of s1 e) = length (notifications_of s e)"
    by (simp add: n1 n)
  have reads: "list_all (\<lambda>d. map_of d (py ''read'') = Some (VBool True)) (notifications_of s1 e)"
    if "list_all has_read_flag (notifications_of s e)"
    using that by (auto simp: n1 n list_all_iff read_pass_reads)
  have none: "mark_all_read (Some s) e = (Inr [(py ''status'', py ''ok'')], Some s)"
    if "list_all (\<lambda>d. map_of d (py ''read'') \<noteq> Some (VBool False)) (notifications_of s e)"
  proof -
    have "read_pass e d = d" if "d \<in> set c" for d
      using that \<open>list_all _ (notifications_of s e)\<close>
      by (intro read_pass_unchanged) (auto simp: n list_all_iff)
    then have "map (read_pass e) c = c"
      by (simp add: map_idI)
    then have "s1 = s"
      by (simp add: s1_def c_def)
    with m show ?thesis by simp
  qed
  from m again len reads none show ?thesis
    by simp
qed

lemma notifications_of_db_unseen: "notifications_of db_unseen (py ''ann@x.com'') = [doc_a]"
  by (simp add: notifications_of_def find_docs_def matches_single db_unseen_def doc_a_def)

lemma notifications_of_db_seen: "notifications_of db_seen (py ''ann@x.com'') = [doc_seen]"
  by (simp add: notifications_of_def find_docs_def matches_single db_seen_def doc_seen_def)

lemma read_pass_doc_a: "read_pass (py ''ann@x.com'') doc_a = doc_seen"
  by (simp add: read_pass_eq doc_a_def doc_seen_def)

lemma mark_all_read_db_unseen:
  "mark_all_read (Some db_unseen) (py ''ann@x.com'') = (Inr [(py ''status'', py ''ok'')], Some db_seen)"
  by (simp add: mark_all_read_eq) (simp add: db_unseen_def db_seen_def read_pass_doc_a)

theorem mark_all_read_idempotent_witness:
  "list_all has_read_flag (notifications_of db_unseen (py ''ann@x.com''))
   \<and> mark_all_read (Some db_unseen) (py ''ann@x.com'')
       = (Inr [(py ''status'', py ''ok'')], Some db_seen)
   \<and> list_all (\<lambda>d. map_of d (py ''read'') = Some (VBool True))
         (notifications_of db_seen (py ''ann@x.com''))
   \<and> list_all (\<lambda>d. map_of d (py ''read'') \<noteq> Some (VBool False))
         (notifications_of db_seen (py ''ann@x.com''))
   \<and> mark_all_read (Some db_seen) (py ''ann@x.com'')
       = (Inr [(py ''status'', py ''ok'')], Some db_seen)"
proof -
  have f: "list_all has_read_flag (notifications_of db_unseen (py ''ann@x.com''))"
    by (simp add: notifications_of_db_unseen has_read_flag_def doc_get_def doc_a_def)
  have s1: "snd (mark_all_read (Some db_unseen) (py ''ann@x.com'')) = Some db_seen"
    by (simp add: mark_all_read_db_unseen)
  from mark_all_read_idempotent [of db_unseen "py ''ann@x.com''"] f s1
  have 1: "list_all (\<lambda>d. map_of d (py ''read'') = Some (VBool True))
             (notifications_of db_seen (py ''ann@x.com''))"
    by auto
  have g: "list_all (\<lambda>d. map_of d (py ''read'') \<noteq> Some (VBool False))
             (notifications_of db_seen (py ''ann@x.com''))"
    by (simp add: notifications_of_db_seen doc_seen_def)
  from mark_all_read_idempotent [of db_seen "py ''ann@x.com''"] g
  have 2: "mark_all_read (Some db_seen) (py ''ann@x.com'')
             = (Inr [(py ''status'', py ''ok'')], Some db_seen)"
    by blast
  from f mark_all_read_db_unseen 1 g 2 show ?thesis by blast
qed

text \<open>Marking read keeps the documents well typed and keeps their \<open>read\<close> flags.\<close>

lemma read_pass_well_typed: "well_typed d \<Longrightarrow> well_typed (read_pass e d)"
  by (simp add: read_pass_eq well_typed_def field_ok_def update_conv')

lemma read_pass_has_read_flag: "has_read_flag d \<Longrightarrow> has_read_flag (read_pass e d)"
  by (simp add: read_pass_eq has_read_flag_def doc_get_def update_conv')

section \<open>The data model is kept\<close>

lemma register_cases:
  assumes "snd (register (Some s) now d) = Some s'"
  shows "s' = s
         \<or> (\<exists>h. user_count s (reg_email d) = 0
                \<and> s' = s\<lparr>colls := (colls s)(py ''authuser'' := colls s (py ''authuser'') @
                             [[(py ''name'', VStr (reg_name d)),
                               (py ''email'', VStr (reg_email d)),
                               (py ''password_hash'', VStr h),
                               (py ''avatar_url'', VNull),
                               (py ''created_at'', VDate now),
                               (py ''_id'', VObjectId (next_id s))]]),
                           next_id := next_id s + 1\<rparr>)"
proof (cases "0 < user_count s (reg_email d)")
  case True
  with assms show ?thesis
    by (simp add: register_def found_user_count)
next
  case False
  then have u: "user_count s (reg_email d) = 0" by simp
  from assms show ?thesis
    by (auto simp: register_new_email [OF u] u split: sum.splits)
qed

lemma register_data_model:
  assumes "data_model s" and "snd (register (Some s) now d) = Some s'"
  shows "data_model s'"
proof -
  from register_cases [OF assms(2)] show ?thesis
  proof
    assume "s' = s"
    with assms(1) show ?thesis by simp
  next
    assume "\<exists>h. user_count s (reg_email d) = 0
                \<and> s' = s\<lparr>colls := (colls s)(py ''authuser'' := colls s (py ''authuser'') @
                             [[(py ''name'', VStr (reg_name d)),
                               (py ''email'', VStr (reg_email d)),
                               (py ''password_hash'', VStr h),
                               (py ''avatar_url'', VNull),
                               (py ''created_at'', VDate now),
                               (py ''_id'', VObjectId (next_id s))]]),
                           next_id := next_id s + 1\<rparr>"
    then obtain h where a: "user_count s (reg_email d) = 0
            \<and> s' = s\<lparr>colls := (colls s)(py ''authuser'' := colls s (py ''authuser'') @
                         [[(py ''name'', VStr (reg_name d)),
                           (py ''email'', VStr (reg_email d)),
                           (py ''password_hash'', VStr h),
                           (py ''avatar_url'', VNull),
                           (py ''created_at'', VDate now),
                           (py ''_id'', VObjectId (next_id s))]]),
                       next_id := next_id s + 1\<rparr>"
      by blast
    have "user_count s' e \<le> 1" for e
    proof (cases "e = reg_email d")
      case True
      with a show ?thesis
        by (simp add: user_count_def find_docs_def matches_single)
    next
      case False
      with a have "user_count s' e = user_count s e"
        by (simp add: user_count_def find_docs_def matches_single)
      with assms(1) show ?thesis
        by (simp add: data_model_def)
    qed
    with a assms(1) show ?thesis
      by (simp add: data_model_def user_ok_def doc_get_def)
  qed
qed

lemma create_notification_data_model:
  assumes "data_model s" and "snd (create_notification (Some s) now c) = Some s'"
  shows "data_model s'"
  using assms create_notification_users [OF assms(2)]
    create_notification_well_typed [OF _ assms(2)]
    create_notification_has_read_flag [OF _ assms(2)]
  by (simp add: data_model_def user_count_def)

lemma mark_all_read_data_model:
  assumes "data_model s" and "snd (mark_all_read (Some s) e) = Some s'"
  shows "data_model s'"
proof -
  from assms(2) have s': "s' = s\<lparr>colls := (colls s)(py ''notification'' :=
                 map (read_pass e) (colls s (py ''notification'')))\<rparr>"
    by (simp add: mark_all_read_eq)
  from assms(1) show ?thesis
    by (simp add: s' data_model_def user_count_def list_all_iff
          read_pass_well_typed read_pass_has_read_flag)
qed

text \<open>
  Every datastore the system produces follows the data model: User and Notification
  documents have the types of their attributes, every Notification has its \<open>read\<close> flag,
  and no email has two User documents.
\<close>

theorem reachable_data_model:
  assumes "reachable s"
  shows "data_model s"
  using assms
proof (induction rule: reachable.induct)
  case (start n i)
  show ?case
    by (simp add: data_model_def user_count_def find_docs_def)
next
  case (registered s now d s')
  then show ?case by (simp add: register_data_model)
next
  case (notified s now c s')
  then show ?case by (simp add: create_notification_data_model)
next
  case (marked s e s')
  then show ?case by (simp add: mark_all_read_data_model)
qed

lemma data_model_notifications:
  assumes "data_model s"
  shows "list_all well_typed (notifications_of s e)" and "list_all has_read_flag (notifications_of s e)"
  using assms by (simp_all add: data_model_def notifications_of_def find_docs_def list_all_iff)

lemma data_model_user:
  assumes "data_model s"
    and "find_one (colls s (py ''authuser'')) flt = Some u"
  shows "user_ok u"
proof -
  from assms(2) have "u \<in> set (colls s (py ''authuser''))"
    by (auto simp: find_one_def find_Some_iff)
  with assms(1) show ?thesis
    by (simp add: data_model_def list_all_iff)
qed

section \<open>Diagnostics\<close>

text \<open>
  C9. The diagnostics endpoint never fails: for every state of the handle, every outcome
  of the collection enumeration and every environment it returns a diagnostic object. An
  exception raised by the enumeration is rendered in the \<open>database\<close> field, its text cut
  to at most 50 characters, and the reported collection list has at most 10 names.
\<close>

theorem test_database_never_fails:
  "(\<exists>r. test_database db enum env_url env_name = r
        \<and> length (collections r) \<le> 10
        \<and> backend r = 0x2705 # py '' Running'')
   \<and> (\<exists>t. database (test_database (Some s) (Inl e) env_url env_name)
             = [0x26A0, 0xFE0F] @ py ''  Connected but Error: '' @ t
          \<and> t = take 50 e \<and> length t \<le> 50)
   \<and> collections (test_database (Some s) (Inr cs) env_url env_name) = take 10 cs"
  by (simp add: test_database_def Let_def split: option.splits sum.splits)

theorem test_database_never_fails_witness:
  "database (test_database (Some db_empty) (Inl (replicate 60 65)) None None)
     = [0x26A0, 0xFE0F] @ py ''  Connected but Error: '' @ replicate 50 65
   \<and> collections (test_database (Some db_empty) (Inr (replicate 12 (py ''c''))) None None)
       = replicate 10 (py ''c'')
   \<and> length (collections (test_database None (Inr (replicate 12 (py ''c''))) None None)) \<le> 10"
proof -
  note t = test_database_never_fails [of "None" "Inr (replicate 12 (py ''c''))" None None
      db_empty "replicate 60 65" "replicate 12 (py ''c'')"]
  from t have 1: "database (test_database (Some db_empty) (Inl (replicate 60 65)) None None)
     = [0x26A0, 0xFE0F] @ py ''  Connected but Error: '' @ take 50 (replicate 60 65)"
    by blast
  from t have 2: "collections (test_database (Some db_empty) (Inr (replicate 12 (py ''c''))) None None)
       = take 10 (replicate 12 (py ''c''))"
    by blast
  from t have 3: "length (collections (test_database None (Inr (replicate 12 (py ''c''))) None None)) \<le> 10"
    by blast
  from 1 2 3 show ?thesis by simp
qed

end
